theory Spec2Isabelle
  imports Main "HOL-Library.Word"
begin

section \<open>Common types\<close>

type_synonym byte = "8 word"

text \<open>A Go panic, with the runtime's or the program's message.\<close>

datatype panic = Panic string

section \<open>Secure boot namespace rules (efi/secureboot\_namespace\_rules.go)\<close>

text \<open>
  The three fields of \<open>x509.Certificate\<close> that \<open>AddAuthorities\<close> reads.
  \<open>x509.PublicKeyAlgorithm\<close> is an \<open>int\<close> enumeration. A Go byte slice is a list of
  bytes: \<open>bytes.Equal\<close> does not tell a nil slice from an empty one, and neither does
  list equality.
\<close>

record Certificate =
  RawSubject :: "byte list"
  SubjectKeyId :: "byte list"
  PublicKeyAlgorithm :: int

record secureBootAuthorityIdentity =
  subject :: "byte list"
  subjectKeyId :: "byte list"
  publicKeyAlgorithm :: int

text \<open>
  \<open>secureBootNamespaceRules\<close>: the authority list and the embedded \<open>*imageRules\<close>,
  whose type is declared elsewhere and is left as a parameter.
\<close>

record 'r secureBootNamespaceRules =
  authorities :: "secureBootAuthorityIdentity list"
  imageRules :: 'r

text \<open>The condition of the inner loop of \<open>AddAuthorities\<close>.\<close>

definition authority_matches :: "secureBootAuthorityIdentity \<Rightarrow> Certificate \<Rightarrow> bool" where
  "authority_matches authority cert \<longleftrightarrow>
     subject authority = RawSubject cert \<and>
     subjectKeyId authority = SubjectKeyId cert \<and>
     publicKeyAlgorithm authority = PublicKeyAlgorithm cert"

text \<open>The inner loop: \<open>found\<close> becomes true at the first matching authority.\<close>

fun authority_found :: "secureBootAuthorityIdentity list \<Rightarrow> Certificate \<Rightarrow> bool" where
  "authority_found [] cert = False"
| "authority_found (authority # rest) cert =
     (if authority_matches authority cert then True else authority_found rest cert)"

definition identity_of :: "Certificate \<Rightarrow> secureBootAuthorityIdentity" where
  "identity_of cert =
     \<lparr>subject = RawSubject cert, subjectKeyId = SubjectKeyId cert,
      publicKeyAlgorithm = PublicKeyAlgorithm cert\<rparr>"

text \<open>
  \<open>AddAuthorities(certs ...*x509.Certificate)\<close>. The certificates are pointers:
  \<open>None\<close> is a nil pointer, and reading \<open>cert.RawSubject\<close> through it panics.
\<close>

fun AddAuthorities ::
  "'r secureBootNamespaceRules \<Rightarrow> Certificate option list \<Rightarrow> panic + 'r secureBootNamespaceRules"
where
  "AddAuthorities r [] = Inr r"
| "AddAuthorities r (None # certs) = Inl (Panic ''invalid memory address or nil pointer dereference'')"
| "AddAuthorities r (Some cert # certs) =
     (if authority_found (authorities r) cert then AddAuthorities r certs
      else AddAuthorities (r\<lparr>authorities := authorities r @ [identity_of cert]\<rparr>) certs)"

section \<open>Combinations of PCR values (tpm2/export\_test.go)\<close>

type_synonym HashAlgorithmId = "16 word"
type_synonym Digest = "byte list"

text \<open>
  \<open>tpm2.PCRValues\<close> is \<open>map[HashAlgorithmId]map[int]Digest\<close>; \<open>SetValue\<close> creates
  the inner map of an algorithm on its first use.
\<close>

type_synonym PCRValues = "HashAlgorithmId \<rightharpoonup> (int \<rightharpoonup> Digest)"

definition SetValue :: "PCRValues \<Rightarrow> HashAlgorithmId \<Rightarrow> int \<Rightarrow> Digest \<Rightarrow> PCRValues" where
  "SetValue v alg pcr digest =
     v(alg \<mapsto> (case v alg of None \<Rightarrow> Map.empty | Some m \<Rightarrow> m)(pcr \<mapsto> digest))"

record MockPolicyPCRParam =
  PCR :: int
  Alg :: HashAlgorithmId
  Digests :: "Digest list"

text \<open>
  The loop \<open>for i := range params { v.SetValue(..., params[i].Digests[indices[i]]) }\<close>,
  over \<open>params\<close> and \<open>indices\<close> in step. An index outside \<open>Digests\<close> panics.
  \<open>indices\<close> is made with \<open>len(params)\<close> entries, so the second equation is never
  reached from \<open>MakeMockPolicyPCRValuesFull\<close>.
\<close>

fun setValues :: "MockPolicyPCRParam list \<Rightarrow> nat list \<Rightarrow> PCRValues \<Rightarrow> panic + PCRValues" where
  "setValues [] indices v = Inr v"
| "setValues (p # params) [] v = Inl (Panic ''index out of range'')"
| "setValues (p # params) (i # indices) v =
     (if i < length (Digests p)
      then setValues params indices (SetValue v (Alg p) (PCR p) (Digests p ! i))
      else Inl (Panic ''index out of range''))"

text \<open>
  The closure \<open>advanceIndices\<close>: the result is its boolean and the updated \<open>indices\<close>.
  \<open>i == len(params)-1\<close> is \<open>params = []\<close> for the rest of the list.
\<close>

fun advanceIndices :: "MockPolicyPCRParam list \<Rightarrow> nat list \<Rightarrow> bool \<times> nat list" where
  "advanceIndices (p # params) (i # indices) =
     (if Suc i < length (Digests p) then (True, Suc i # indices)
      else if params = [] then (False, 0 # indices)
      else (case advanceIndices params indices of (b, indices') \<Rightarrow> (b, 0 # indices')))"
| "advanceIndices params indices = (True, indices)"

text \<open>The value of \<open>indices\<close> as a mixed-radix number, and the number of combinations.\<close>

fun indices_value :: "MockPolicyPCRParam list \<Rightarrow> nat list \<Rightarrow> nat" where
  "indices_value (p # params) (i # indices) = i + length (Digests p) * indices_value params indices"
| "indices_value params indices = 0"

definition combinations :: "MockPolicyPCRParam list \<Rightarrow> nat" where
  "combinations params = prod_list (map (\<lambda>p. length (Digests p)) params)"

lemma setValues_value_bound:
  "setValues params indices v = Inr v' \<Longrightarrow> indices_value params indices < combinations params"
proof (induction params indices v rule: setValues.induct)
  case (1 indices v)
  then show ?case by (simp add: combinations_def)
next
  case (2 p params v)
  then show ?case by simp
next
  case (3 p params i indices v)
  let ?l = "length (Digests p)"
  from 3 have i: "i < ?l"
    by (simp split: if_splits)
  with 3 have "indices_value params indices < combinations params"
    by (simp split: if_splits)
  then have "Suc (indices_value params indices) \<le> combinations params"
    by simp
  then have "?l * Suc (indices_value params indices) \<le> ?l * combinations params"
    by (rule mult_le_mono2)
  with i show ?case
    by (simp add: combinations_def)
qed

lemma advanceIndices_value:
  "setValues params indices v = Inr v' \<Longrightarrow> params \<noteq> [] \<Longrightarrow>
   advanceIndices params indices = (True, indices') \<Longrightarrow>
   indices_value params indices' = Suc (indices_value params indices)"
proof (induction params indices v arbitrary: indices' rule: setValues.induct)
  case (1 indices v)
  then show ?case by simp
next
  case (2 p params v)
  then show ?case by simp
next
  case (3 p params i indices v)
  from "3.prems" have i: "i < length (Digests p)"
    and sv: "setValues params indices (SetValue v (Alg p) (PCR p) (Digests p ! i)) = Inr v'"
    by (simp_all split: if_splits)
  show ?case
  proof (cases "Suc i < length (Digests p)")
    case True
    with "3.prems" show ?thesis by auto
  next
    case False
    with i have l: "length (Digests p) = Suc i" by simp
    from False "3.prems" obtain rest where ne: "params \<noteq> []"
      and adv: "advanceIndices params indices = (True, rest)" and ind: "indices' = 0 # rest"
      by (auto split: if_splits prod.splits)
    from "3.IH" [OF i sv ne adv] ind l show ?thesis by simp
  qed
qed

text \<open>
  The \<open>for\<close> loop of \<open>MakeMockPolicyPCRValuesFull\<close>: \<open>v\<close> is a fresh map in each
  round, \<open>out\<close> grows by one row per round.
\<close>

function MakeMockPolicyPCRValuesFull_loop ::
  "MockPolicyPCRParam list \<Rightarrow> nat list \<Rightarrow> PCRValues list \<Rightarrow> panic + PCRValues list"
where
  "MakeMockPolicyPCRValuesFull_loop params indices out =
     (case setValues params indices Map.empty of
        Inl e \<Rightarrow> Inl e
      | Inr v \<Rightarrow>
          if params = [] then Inr (out @ [v])
          else (case advanceIndices params indices of
                  (False, indices') \<Rightarrow> Inr (out @ [v])
                | (True, indices') \<Rightarrow> MakeMockPolicyPCRValuesFull_loop params indices' (out @ [v])))"
  by pat_completeness auto
termination
proof (relation "measure (\<lambda>(params, indices, out). combinations params - indices_value params indices)")
  show "wf (measure (\<lambda>(params, indices, out). combinations params - indices_value params indices))"
    by simp
next
  fix params :: "MockPolicyPCRParam list" and indices :: "nat list" and out :: "PCRValues list"
    and v b indices'
  assume sv: "setValues params indices Map.empty = Inr v" and ne: "params \<noteq> []"
    and adv: "(b, indices') = advanceIndices params indices" "b = True"
  from adv have "advanceIndices params indices = (True, indices')"
    by simp
  from advanceIndices_value [OF sv ne this] setValues_value_bound [OF sv]
  show "((params, indices', out @ [v]), (params, indices, out))
        \<in> measure (\<lambda>(params, indices, out). combinations params - indices_value params indices)"
    by simp
qed

definition MakeMockPolicyPCRValuesFull :: "MockPolicyPCRParam list \<Rightarrow> panic + PCRValues list" where
  "MakeMockPolicyPCRValuesFull params =
     MakeMockPolicyPCRValuesFull_loop params (replicate (length params) 0) []"

section \<open>Volume activation\<close>

text \<open>
  The activation entry points (\<open>ActivateVolumeWithTPMSealedKey\<close>,
  \<open>ActivateVolumeWithRecoveryKey\<close>) are exercised by the tests of the repository, but
  their implementation is not among the sources. They are modelled from section 4.6 of the
  specification; the error messages are the ones the tests match.
\<close>

datatype RecoveryKeyUsageReason =
    RecoveryKeyUsageReasonTPMLockout
  | RecoveryKeyUsageReasonTPMProvisioningError
  | RecoveryKeyUsageReasonInvalidKeyFile
  | RecoveryKeyUsageReasonPINFail
  | RecoveryKeyUsageReasonRequested

text \<open>The sub-kinds of an unseal failure (specification, section 4.5).\<close>

datatype UnsealError =
    ErrLockout
  | ErrProvisioning
  | ErrInvalidKeyFile string
  | ErrPinFail

datatype DecodeError = InsufficientCharacters | InvalidBase10Number | TooManyCharacters

text \<open>Why the path through the TPM failed.\<close>

datatype TPMKeyError =
    CannotUnsealKey UnsealError
  | NoPINTries
  | TPMKeyCannotActivate nat

datatype ActivateError =
    InvalidPINTries
  | InvalidRecoveryKeyTries
  | InvalidTries
  | ReservedTriesOption
  | NoRecoveryKeyTries
  | CannotDecodeRecoveryKey DecodeError
  | CannotActivateVolume nat
  | ActivateWithTPMSealedKeyError TPMKeyError "ActivateError option"

definition is_parameter_error :: "ActivateError \<Rightarrow> bool" where
  "is_parameter_error e \<longleftrightarrow>
     e = InvalidPINTries \<or> e = InvalidRecoveryKeyTries \<or> e = InvalidTries \<or>
     e = ReservedTriesOption \<or> e = NoRecoveryKeyTries"

subsection \<open>Error messages\<close>

function show_nat :: "nat \<Rightarrow> string" where
  "show_nat n =
     (if n < 10 then [char_of (48 + n)] else show_nat (n div 10) @ [char_of (48 + n mod 10)])"
  by pat_completeness auto
termination
  by (relation "measure id") auto

fun unseal_message :: "UnsealError \<Rightarrow> string" where
  "unseal_message ErrLockout = ''the TPM is in DA lockout mode''"
| "unseal_message ErrProvisioning = ''the TPM is not correctly provisioned''"
| "unseal_message (ErrInvalidKeyFile detail) = ''invalid key data file: '' @ detail"
| "unseal_message ErrPinFail = ''the provided PIN is incorrect''"

fun decode_message :: "DecodeError \<Rightarrow> string" where
  "decode_message InsufficientCharacters = ''incorrectly formatted (insufficient characters)''"
| "decode_message InvalidBase10Number = ''incorrectly formatted (invalid base-10 number)''"
| "decode_message TooManyCharacters = ''incorrectly formatted (too many characters)''"

definition tool_message :: "nat \<Rightarrow> string" where
  "tool_message status =
     ''cannot activate volume: systemd-cryptsetup failed: exit status '' @ show_nat status"

fun tpm_key_message :: "TPMKeyError \<Rightarrow> string" where
  "tpm_key_message (CannotUnsealKey e) = ''cannot unseal key: '' @ unseal_message e"
| "tpm_key_message NoPINTries = ''no PIN tries permitted when a PIN is required''"
| "tpm_key_message (TPMKeyCannotActivate status) = tool_message status"

fun error_message :: "ActivateError \<Rightarrow> string" where
  "error_message InvalidPINTries = ''invalid PINTries''"
| "error_message InvalidRecoveryKeyTries = ''invalid RecoveryKeyTries''"
| "error_message InvalidTries = ''invalid Tries''"
| "error_message ReservedTriesOption =
     ''cannot specify the '' @ [CHR 0x22] @ ''tries='' @ [CHR 0x22] @ '' option for systemd-cryptsetup''"
| "error_message NoRecoveryKeyTries = ''no recovery key tries permitted''"
| "error_message (CannotDecodeRecoveryKey e) = ''cannot decode recovery key: '' @ decode_message e"
| "error_message (CannotActivateVolume status) = tool_message status"
| "error_message (ActivateWithTPMSealedKeyError e None) =
     ''cannot activate with TPM sealed key ('' @ tpm_key_message e @
     '') but activation with recovery key was successful''"
| "error_message (ActivateWithTPMSealedKeyError e (Some r)) =
     ''cannot activate with TPM sealed key ('' @ tpm_key_message e @
     '') and activation with recovery key failed ('' @ error_message r @ '')''"

subsection \<open>The recovery key\<close>

text \<open>
  Modelled from the spec: the decoder of the recovery secret, which is not among the
  sources. Section 4.6: groups of 5 base-10 digits, hyphens optional, exact digit count
  required. The test setup formats the 16 bytes of a key as 8 groups, each the decimal
  value (\<open>%05d\<close>) of two bytes read as a little-endian 16-bit number; a group above
  65535 does not fit in its two bytes and is refused as a number.
\<close>

definition digit_val :: "char \<Rightarrow> nat option" where
  "digit_val c =
     (let n = (of_char c :: nat) in if 48 \<le> n \<and> n \<le> 57 then Some (n - 48) else None)"

fun parseDecimal :: "string \<Rightarrow> nat \<Rightarrow> nat option" where
  "parseDecimal [] acc = Some acc"
| "parseDecimal (c # cs) acc =
     (case digit_val c of None \<Rightarrow> None | Some d \<Rightarrow> parseDecimal cs (acc * 10 + d))"

fun decodeGroups :: "nat \<Rightarrow> string \<Rightarrow> DecodeError + byte list" where
  "decodeGroups 0 s = (if s = [] then Inr [] else Inl TooManyCharacters)"
| "decodeGroups (Suc n) s =
     (if length s < 5 then Inl InsufficientCharacters
      else case parseDecimal (take 5 s) 0 of
        None \<Rightarrow> Inl InvalidBase10Number
      | Some x \<Rightarrow>
          if 65535 < x then Inl InvalidBase10Number
          else let rest = drop 5 s;
                   rest' = (if 0 < n \<and> take 1 rest = ''-'' then drop 1 rest else rest)
               in case decodeGroups n rest' of
                    Inl e \<Rightarrow> Inl e
                  | Inr key \<Rightarrow> Inr (of_nat (x mod 256) # of_nat (x div 256) # key))"

definition decodeRecoveryKey :: "string \<Rightarrow> DecodeError + byte list" where
  "decodeRecoveryKey s = decodeGroups 8 s"

subsection \<open>The collaborators\<close>

text \<open>
  One call of the prompting collaborator (section 6): a fixed icon, an identifier made of
  the process name and the source device path, and the text of the prompt.
\<close>

record prompt =
  icon :: string
  promptId :: string
  promptText :: string

text \<open>
  One call of the external unlock tool (section 6). \<open>keyFile\<close> is the content of the
  temporary file whose path is passed to the tool.
\<close>

record invocation =
  action :: string
  volumeName :: string
  sourceDevicePath :: string
  keyFile :: "byte list"
  optionString :: string

text \<open>
  The state an activation acts on: the hardware, the log of prompts and of tool calls,
  the cache of recovery keys with their reason tags, and the tries used so far.
\<close>

record 'hw world =
  hardware :: 'hw
  prompts :: "prompt list"
  invocations :: "invocation list"
  keyCache :: "(RecoveryKeyUsageReason \<times> byte list) list"
  pinTriesUsed :: nat
  recoveryTriesUsed :: nat

text \<open>
  What the activation cannot decide by itself: the answer given to the \<open>n\<close>-th prompt,
  the exit status of the unlock tool, the result of an unseal attempt (section 4.5) with
  an authorization value, and whether the key needs a PIN.
\<close>

record ('hw, 'kd) collaborators =
  processName :: string
  answer :: "nat \<Rightarrow> string"
  tool :: "invocation \<Rightarrow> nat"
  unseal :: "'hw \<Rightarrow> 'kd \<Rightarrow> string \<Rightarrow> (UnsealError + byte list) \<times> 'hw"
  requiresPIN :: "'kd \<Rightarrow> bool"

text \<open>
  An optional reader of a PIN or of a recovery key: it holds some content, or cannot be
  read. What it yields is the first line of the content.
\<close>

datatype reader = Reader string | UnreadableReader

definition readCandidate :: "reader option \<Rightarrow> string option" where
  "readCandidate r =
     (case r of
        None \<Rightarrow> None
      | Some UnreadableReader \<Rightarrow> None
      | Some (Reader content) \<Rightarrow>
          (let line = takeWhile (\<lambda>c. c \<noteq> CHR 0x0A) content
           in if line = [] then None else Some line))"

record activate_options =
  ActivateOptions :: "string list"

record ActivateWithTPMSealedKeyOptions = activate_options +
  PINTries :: int
  RecoveryKeyTries :: int

record ActivateWithRecoveryKeyOptions = activate_options +
  Tries :: int

subsection \<open>The state machine\<close>

fun join :: "string \<Rightarrow> string list \<Rightarrow> string" where
  "join sep [] = []"
| "join sep [x] = x"
| "join sep (x # y # xs) = x @ sep @ join sep (y # xs)"

definition reservedOption :: "string \<Rightarrow> bool" where
  "reservedOption opt \<longleftrightarrow> take 6 opt = ''tries=''"

text \<open>
  The caller's options for the unlock tool must not hold the reserved option; the option
  list of every tool call is the caller's list followed by one \<open>tries=1\<close>.
\<close>

definition makeActivateOptions :: "string list \<Rightarrow> ActivateError + string list" where
  "makeActivateOptions opts =
     (if list_ex reservedOption opts then Inl ReservedTriesOption
      else Inr (opts @ [''tries=1'']))"

definition mk_invocation :: "string \<Rightarrow> string \<Rightarrow> string list \<Rightarrow> byte list \<Rightarrow> invocation" where
  "mk_invocation vol src opts key =
     \<lparr>action = ''attach'', volumeName = vol, sourceDevicePath = src, keyFile = key,
      optionString = join '','' opts\<rparr>"

text \<open>One call of the unlock tool; the result is its exit status.\<close>

definition activate ::
  "('hw, 'kd) collaborators \<Rightarrow> string \<Rightarrow> string \<Rightarrow> byte list \<Rightarrow> string list \<Rightarrow> 'hw world \<Rightarrow>
   nat \<times> 'hw world"
where
  "activate env vol src key opts w =
     (tool env (mk_invocation vol src opts key),
      w\<lparr>invocations := invocations w @ [mk_invocation vol src opts key]\<rparr>)"

definition mk_prompt :: "('hw, 'kd) collaborators \<Rightarrow> string \<Rightarrow> string \<Rightarrow> prompt" where
  "mk_prompt env src description =
     \<lparr>icon = ''drive-harddisk'', promptId = processName env @ '':'' @ src,
      promptText = ''Please enter the '' @ description @ '' for disk '' @ src @ '':''\<rparr>"

text \<open>
  A candidate comes from the reader when it yields one, and from a prompt otherwise.
\<close>

definition getPassword ::
  "('hw, 'kd) collaborators \<Rightarrow> string \<Rightarrow> string \<Rightarrow> reader option \<Rightarrow> 'hw world \<Rightarrow> string \<times> 'hw world"
where
  "getPassword env src description r w =
     (case readCandidate r of
        Some candidate \<Rightarrow> (candidate, w)
      | None \<Rightarrow>
          (answer env (length (prompts w)),
           w\<lparr>prompts := prompts w @ [mk_prompt env src description]\<rparr>))"

text \<open>
  Steps 2 to 4 of \<open>WithRecoveryKey\<close>. The reader is used for the first candidate only.
  A candidate that does not decode uses its try; so does one the tool refuses. The first
  success ends the loop and caches the key under the reason tag; when the tries are used
  up the last error is the result.
\<close>

fun recoveryKeyLoop ::
  "('hw, 'kd) collaborators \<Rightarrow> string \<Rightarrow> string \<Rightarrow> reader option \<Rightarrow> nat \<Rightarrow>
   RecoveryKeyUsageReason \<Rightarrow> string list \<Rightarrow> ActivateError option \<Rightarrow> 'hw world \<Rightarrow>
   ActivateError option \<times> 'hw world"
where
  "recoveryKeyLoop env vol src r 0 reason opts lastErr w = (lastErr, w)"
| "recoveryKeyLoop env vol src r (Suc tries) reason opts lastErr w =
     (case getPassword env src ''recovery key'' r w of
        (candidate, w1) \<Rightarrow>
          (let w2 = w1\<lparr>recoveryTriesUsed := Suc (recoveryTriesUsed w1)\<rparr> in
           case decodeRecoveryKey candidate of
             Inl e \<Rightarrow>
               recoveryKeyLoop env vol src None tries reason opts
                 (Some (CannotDecodeRecoveryKey e)) w2
           | Inr key \<Rightarrow>
               (case activate env vol src key opts w2 of
                  (status, w3) \<Rightarrow>
                    if status = 0
                    then (None, w3\<lparr>keyCache := keyCache w3 @ [(reason, key)]\<rparr>)
                    else recoveryKeyLoop env vol src None tries reason opts
                           (Some (CannotActivateVolume status)) w3)))"

definition activateWithRecoveryKey ::
  "('hw, 'kd) collaborators \<Rightarrow> string \<Rightarrow> string \<Rightarrow> reader option \<Rightarrow> nat \<Rightarrow>
   RecoveryKeyUsageReason \<Rightarrow> string list \<Rightarrow> 'hw world \<Rightarrow> ActivateError option \<times> 'hw world"
where
  "activateWithRecoveryKey env vol src r tries reason opts w =
     (if tries = 0 then (Some NoRecoveryKeyTries, w)
      else recoveryKeyLoop env vol src r tries reason opts None w)"

text \<open>
  \<open>WithRecoveryKey(volumeName, sourcePath, keyReaderOrNone, options)\<close>, step 1: the
  try count is validated first, then the reserved option.
\<close>

definition WithRecoveryKey ::
  "('hw, 'kd) collaborators \<Rightarrow> string \<Rightarrow> string \<Rightarrow> reader option \<Rightarrow>
   ActivateWithRecoveryKeyOptions \<Rightarrow> 'hw world \<Rightarrow> ActivateError option \<times> 'hw world"
where
  "WithRecoveryKey env vol src keyReader options w =
     (if Tries options < 0 then (Some InvalidTries, w)
      else if Tries options = 0 then (Some NoRecoveryKeyTries, w)
      else case makeActivateOptions (ActivateOptions options) of
        Inl e \<Rightarrow> (Some e, w)
      | Inr opts \<Rightarrow>
          activateWithRecoveryKey env vol src keyReader (nat (Tries options))
            RecoveryKeyUsageReasonRequested opts w)"

text \<open>
  Step 2 of \<open>WithSealedKey\<close> for a key that needs a PIN: up to \<open>PINTries\<close>
  candidates, each tried against the hardware. A wrong PIN leads to the next try; any
  other failure of the unseal ends the loop.
\<close>

fun pinLoop ::
  "('hw, 'kd) collaborators \<Rightarrow> 'kd \<Rightarrow> string \<Rightarrow> reader option \<Rightarrow> nat \<Rightarrow> TPMKeyError \<Rightarrow> 'hw world \<Rightarrow>
   (TPMKeyError + byte list) \<times> 'hw world"
where
  "pinLoop env k src r 0 lastErr w = (Inl lastErr, w)"
| "pinLoop env k src r (Suc tries) lastErr w =
     (case getPassword env src ''PIN'' r w of
        (pin, w1) \<Rightarrow>
          (case unseal env (hardware w1) k pin of
             (res, hw') \<Rightarrow>
               (let w2 = w1\<lparr>hardware := hw', pinTriesUsed := Suc (pinTriesUsed w1)\<rparr> in
                case res of
                  Inr secret \<Rightarrow> (Inr secret, w2)
                | Inl ErrPinFail \<Rightarrow>
                    pinLoop env k src None tries (CannotUnsealKey ErrPinFail) w2
                | Inl e \<Rightarrow> (Inl (CannotUnsealKey e), w2))))"

text \<open>Steps 2 and 3 of \<open>WithSealedKey\<close>: the secret from the TPM, then one tool call.\<close>

definition unsealWithPIN ::
  "('hw, 'kd) collaborators \<Rightarrow> 'kd \<Rightarrow> string \<Rightarrow> reader option \<Rightarrow> nat \<Rightarrow> 'hw world \<Rightarrow>
   (TPMKeyError + byte list) \<times> 'hw world"
where
  "unsealWithPIN env k src pinReader pinTries w =
     (if requiresPIN env k then
        (if pinTries = 0 then (Inl NoPINTries, w)
         else pinLoop env k src pinReader pinTries NoPINTries w)
      else
        (case unseal env (hardware w) k [] of
           (res, hw') \<Rightarrow>
             (case res of Inl e \<Rightarrow> Inl (CannotUnsealKey e) | Inr secret \<Rightarrow> Inr secret,
              w\<lparr>hardware := hw'\<rparr>)))"

definition activateWithTPMKey ::
  "('hw, 'kd) collaborators \<Rightarrow> 'kd \<Rightarrow> string \<Rightarrow> string \<Rightarrow> reader option \<Rightarrow> nat \<Rightarrow> string list \<Rightarrow>
   'hw world \<Rightarrow> TPMKeyError option \<times> 'hw world"
where
  "activateWithTPMKey env k vol src pinReader pinTries opts w =
     (case unsealWithPIN env k src pinReader pinTries w of
        (Inl e, w1) \<Rightarrow> (Some e, w1)
      | (Inr secret, w1) \<Rightarrow>
          (case activate env vol src secret opts w1 of
             (status, w2) \<Rightarrow>
               (if status = 0 then None else Some (TPMKeyCannotActivate status), w2)))"

text \<open>The reason tag of a recovery key that is used after the TPM path failed (step 4).\<close>

fun reasonFor :: "TPMKeyError \<Rightarrow> RecoveryKeyUsageReason" where
  "reasonFor (CannotUnsealKey ErrLockout) = RecoveryKeyUsageReasonTPMLockout"
| "reasonFor (CannotUnsealKey ErrProvisioning) = RecoveryKeyUsageReasonTPMProvisioningError"
| "reasonFor (CannotUnsealKey (ErrInvalidKeyFile detail)) = RecoveryKeyUsageReasonInvalidKeyFile"
| "reasonFor (CannotUnsealKey ErrPinFail) = RecoveryKeyUsageReasonPINFail"
| "reasonFor NoPINTries = RecoveryKeyUsageReasonPINFail"
| "reasonFor (TPMKeyCannotActivate status) = RecoveryKeyUsageReasonInvalidKeyFile"

text \<open>
  \<open>WithSealedKey(hardware, volumeName, sourcePath, keyData, pinReaderOrNone, options)\<close>:
  the result is \<open>(activated, error)\<close> and the new state.
\<close>

definition WithSealedKey ::
  "('hw, 'kd) collaborators \<Rightarrow> 'kd \<Rightarrow> string \<Rightarrow> string \<Rightarrow> reader option \<Rightarrow>
   ActivateWithTPMSealedKeyOptions \<Rightarrow> 'hw world \<Rightarrow> bool \<times> ActivateError option \<times> 'hw world"
where
  "WithSealedKey env k vol src pinReader options w =
     (if PINTries options < 0 then (False, Some InvalidPINTries, w)
      else if RecoveryKeyTries options < 0 then (False, Some InvalidRecoveryKeyTries, w)
      else case makeActivateOptions (ActivateOptions options) of
        Inl e \<Rightarrow> (False, Some e, w)
      | Inr opts \<Rightarrow>
          (case activateWithTPMKey env k vol src pinReader (nat (PINTries options)) opts w of
             (None, w1) \<Rightarrow> (True, None, w1)
           | (Some tpmErr, w1) \<Rightarrow>
               (case activateWithRecoveryKey env vol src None (nat (RecoveryKeyTries options))
                       (reasonFor tpmErr) opts w1 of
                  (rErr, w2) \<Rightarrow>
                    (rErr = None, Some (ActivateWithTPMSealedKeyError tpmErr rErr), w2))))"

text \<open>The keys that a list of recovery-key candidates decodes to, in order.\<close>

definition decodedKeys :: "string list \<Rightarrow> byte list list" where
  "decodedKeys cs = concat (map (\<lambda>c. case decodeRecoveryKey c of Inl e \<Rightarrow> [] | Inr key \<Rightarrow> [key]) cs)"

text \<open>
  The candidates obtained between two states: the one the reader yields, if any, and the
  answers to the prompts issued in between.
\<close>

definition obtained :: "('hw, 'kd) collaborators \<Rightarrow> reader option \<Rightarrow> 'hw world \<Rightarrow> 'hw world \<Rightarrow> string list" where
  "obtained env r w w' =
     (case readCandidate r of None \<Rightarrow> [] | Some c \<Rightarrow> [c]) @
     map (answer env) [length (prompts w)..<length (prompts w')]"

section \<open>Lemmas on AddAuthorities\<close>

lemma authority_matches_identity: "authority_matches a cert \<longleftrightarrow> a = identity_of cert"
  by (cases a) (auto simp: authority_matches_def identity_of_def)

lemma authority_found_iff: "authority_found as cert \<longleftrightarrow> identity_of cert \<in> set as"
  by (induction as) (auto simp: authority_matches_identity)

lemma AddAuthorities_known:
  "None \<notin> set certs \<Longrightarrow> \<forall>cert. Some cert \<in> set certs \<longrightarrow> identity_of cert \<in> set (authorities r) \<Longrightarrow>
   AddAuthorities r certs = Inr r"
proof (induction certs)
  case Nil
  then show ?case by simp
next
  case (Cons c certs)
  then show ?case
    by (cases c) (simp_all add: authority_found_iff)
qed

lemma AddAuthorities_grows:
  "AddAuthorities r certs = Inr r' \<Longrightarrow>
   None \<notin> set certs \<and> set (authorities r) \<subseteq> set (authorities r') \<and>
   (\<forall>cert. Some cert \<in> set certs \<longrightarrow> identity_of cert \<in> set (authorities r'))"
proof (induction r certs rule: AddAuthorities.induct)
  case (1 r)
  then show ?case by simp
next
  case (2 r certs)
  then show ?case by simp
next
  case (3 r cert certs)
  show ?case
  proof (cases "authority_found (authorities r) cert")
    case True
    with 3 show ?thesis
      by (auto simp: authority_found_iff)
  next
    case False
    with 3 show ?thesis
      by (auto simp: authority_found_iff)
  qed
qed

lemma AddAuthorities_append:
  "AddAuthorities r (xs @ ys) =
     (case AddAuthorities r xs of Inl e \<Rightarrow> Inl e | Inr r' \<Rightarrow> AddAuthorities r' ys)"
  by (induction r xs rule: AddAuthorities.induct) simp_all

lemma AddAuthorities_new:
  "AddAuthorities r certs = Inr r' \<Longrightarrow>
   \<exists>new. authorities r' = authorities r @ new \<and> distinct new \<and>
         set new \<inter> set (authorities r) = {}"
proof (induction r certs rule: AddAuthorities.induct)
  case (1 r)
  then show ?case by simp
next
  case (2 r certs)
  then show ?case by simp
next
  case (3 r cert certs)
  show ?case
  proof (cases "authority_found (authorities r) cert")
    case True
    with 3 show ?thesis by simp
  next
    case False
    with "3.prems" have "AddAuthorities (r\<lparr>authorities := authorities r @ [identity_of cert]\<rparr>) certs = Inr r'"
      by simp
    from "3.IH"(2) [OF False this]
    obtain new where new: "authorities r' = (authorities r @ [identity_of cert]) @ new"
      "distinct new" "set new \<inter> set (authorities r @ [identity_of cert]) = {}"
      by auto
    from False have "identity_of cert \<notin> set (authorities r)"
      by (simp add: authority_found_iff)
    with new have "authorities r' = authorities r @ (identity_of cert # new) \<and>
      distinct (identity_of cert # new) \<and>
      set (identity_of cert # new) \<inter> set (authorities r) = {}"
      by auto
    then show ?thesis by blast
  qed
qed

section \<open>Lemmas on the activation loops\<close>

lemma replicate_snoc: "xs @ x # replicate k x = xs @ replicate (Suc k) x"
  by simp

lemma recoveryKeyLoop_frame:
  "recoveryKeyLoop env vol src r tries reason opts lastErr w = (res, w') \<Longrightarrow>
   (\<exists>k. prompts w' = prompts w @ replicate k (mk_prompt env src ''recovery key'')) \<and>
   hardware w' = hardware w \<and> pinTriesUsed w' = pinTriesUsed w"
proof (induction tries arbitrary: r lastErr w)
  case 0
  then show ?case by simp
next
  case (Suc tries)
  let ?p = "mk_prompt env src ''recovery key''"
  obtain c w1 where gp: "getPassword env src ''recovery key'' r w = (c, w1)"
    by (cases "getPassword env src ''recovery key'' r w")
  then have w1: "(prompts w1 = prompts w \<or> prompts w1 = prompts w @ [?p]) \<and>
      hardware w1 = hardware w \<and> pinTriesUsed w1 = pinTriesUsed w"
    by (auto simp: getPassword_def split: option.splits)
  define w2 where "w2 = w1\<lparr>recoveryTriesUsed := Suc (recoveryTriesUsed w1)\<rparr>"
  have step: "(\<exists>k. prompts w' = prompts w @ replicate k ?p) \<and>
      hardware w' = hardware w \<and> pinTriesUsed w' = pinTriesUsed w"
    if rec: "recoveryKeyLoop env vol src None tries reason opts e wx = (res, w')"
      and wx: "prompts wx = prompts w1" "hardware wx = hardware w1" "pinTriesUsed wx = pinTriesUsed w1"
    for e wx
  proof -
    from Suc.IH [OF rec] obtain k where k: "prompts w' = prompts wx @ replicate k ?p"
      and fr: "hardware w' = hardware wx" "pinTriesUsed w' = pinTriesUsed wx"
      by blast
    from w1 have "prompts w1 = prompts w @ replicate 0 ?p \<or> prompts w1 = prompts w @ replicate 1 ?p"
      by simp
    then obtain j where "prompts w1 = prompts w @ replicate j ?p"
      by blast
    with k wx have "prompts w' = prompts w @ replicate (j + k) ?p"
      by (simp add: replicate_add)
    with fr wx w1 show ?thesis
      by auto
  qed
  have stop: "(\<exists>k. prompts w' = prompts w @ replicate k ?p) \<and>
      hardware w' = hardware w \<and> pinTriesUsed w' = pinTriesUsed w"
    if wx: "prompts w' = prompts w1" "hardware w' = hardware w1" "pinTriesUsed w' = pinTriesUsed w1"
  proof -
    from w1 have "prompts w1 = prompts w @ replicate 0 ?p \<or> prompts w1 = prompts w @ replicate 1 ?p"
      by simp
    then obtain j where "prompts w1 = prompts w @ replicate j ?p"
      by blast
    with wx w1 show ?thesis
      by auto
  qed
  show ?case
  proof (cases "decodeRecoveryKey c")
    case (Inl e)
    with Suc.prems gp have "recoveryKeyLoop env vol src None tries reason opts
        (Some (CannotDecodeRecoveryKey e)) w2 = (res, w')"
      by (simp add: w2_def)
    then show ?thesis
      by (rule step) (simp_all add: w2_def)
  next
    case (Inr key)
    define w3 where "w3 = w2\<lparr>invocations := invocations w2 @ [mk_invocation vol src opts key]\<rparr>"
    show ?thesis
    proof (cases "tool env (mk_invocation vol src opts key) = 0")
      case True
      with Suc.prems gp Inr have "w' = w3\<lparr>keyCache := keyCache w3 @ [(reason, key)]\<rparr>"
        by (simp add: activate_def w2_def w3_def)
      then show ?thesis
        by (intro stop) (simp_all add: w2_def w3_def)
    next
      case False
      with Suc.prems gp Inr have "recoveryKeyLoop env vol src None tries reason opts
          (Some (CannotActivateVolume (tool env (mk_invocation vol src opts key)))) w3 = (res, w')"
        by (simp add: activate_def w2_def w3_def)
      then show ?thesis
        by (rule step) (simp_all add: w2_def w3_def)
    qed
  qed
qed

lemma recoveryKeyLoop_prompts_mono:
  "recoveryKeyLoop env vol src r tries reason opts lastErr w = (res, w') \<Longrightarrow>
   length (prompts w) \<le> length (prompts w')"
  by (drule recoveryKeyLoop_frame) auto

lemma decodedKeys_simps:
  "decodedKeys [] = []"
  "decodedKeys (c # cs) = (case decodeRecoveryKey c of Inl e \<Rightarrow> [] | Inr key \<Rightarrow> [key]) @ decodedKeys cs"
  by (simp_all add: decodedKeys_def)

lemma upt_answers:
  "Suc n \<le> m \<Longrightarrow> map f [n..<m] = f n # map f [Suc n..<m]"
  by (simp add: upt_conv_Cons)

lemma recoveryKeyLoop_prompted:
  "recoveryKeyLoop env vol src None tries reason opts lastErr w = (res, w') \<Longrightarrow>
   recoveryTriesUsed w' + length (prompts w) = recoveryTriesUsed w + length (prompts w') \<and>
   invocations w' = invocations w @
     map (mk_invocation vol src opts)
       (decodedKeys (map (answer env) [length (prompts w)..<length (prompts w')])) \<and>
   recoveryTriesUsed w' \<le> recoveryTriesUsed w + tries \<and>
   (res \<noteq> None \<longrightarrow> recoveryTriesUsed w' = recoveryTriesUsed w + tries)"
proof (induction tries arbitrary: lastErr w)
  case 0
  then show ?case by (simp add: decodedKeys_simps)
next
  case (Suc tries)
  let ?n = "length (prompts w)"
  let ?c = "answer env ?n"
  define w2 where "w2 = w\<lparr>prompts := prompts w @ [mk_prompt env src ''recovery key''],
    recoveryTriesUsed := Suc (recoveryTriesUsed w)\<rparr>"
  have w2: "length (prompts w2) = Suc ?n" "recoveryTriesUsed w2 = Suc (recoveryTriesUsed w)"
    "invocations w2 = invocations w"
    by (simp_all add: w2_def)
  show ?case
  proof (cases "decodeRecoveryKey ?c")
    case (Inl e)
    with Suc.prems have rec: "recoveryKeyLoop env vol src None tries reason opts
        (Some (CannotDecodeRecoveryKey e)) w2 = (res, w')"
      by (simp add: getPassword_def readCandidate_def w2_def)
    from recoveryKeyLoop_prompts_mono [OF rec] w2 have le: "Suc ?n \<le> length (prompts w')"
      by simp
    from Suc.IH [OF rec] w2 le Inl show ?thesis
      by (simp add: upt_answers decodedKeys_simps)
  next
    case (Inr key)
    define w3 where "w3 = w2\<lparr>invocations := invocations w2 @ [mk_invocation vol src opts key]\<rparr>"
    have w3: "length (prompts w3) = Suc ?n" "recoveryTriesUsed w3 = Suc (recoveryTriesUsed w)"
      "invocations w3 = invocations w @ [mk_invocation vol src opts key]"
      by (simp_all add: w3_def w2_def)
    show ?thesis
    proof (cases "tool env (mk_invocation vol src opts key) = 0")
      case True
      with Suc.prems Inr have "w' = w3\<lparr>keyCache := keyCache w3 @ [(reason, key)]\<rparr>" "res = None"
        by (simp_all add: getPassword_def readCandidate_def activate_def w2_def w3_def)
      with w3 Inr show ?thesis
        by (simp add: decodedKeys_simps)
    next
      case False
      with Suc.prems Inr have rec: "recoveryKeyLoop env vol src None tries reason opts
          (Some (CannotActivateVolume (tool env (mk_invocation vol src opts key)))) w3 = (res, w')"
        by (simp add: getPassword_def readCandidate_def activate_def w2_def w3_def)
      from recoveryKeyLoop_prompts_mono [OF rec] w3 have le: "Suc ?n \<le> length (prompts w')"
        by simp
      from Suc.IH [OF rec] w3 le Inr show ?thesis
        by (simp add: upt_answers decodedKeys_simps)
    qed
  qed
qed

lemma getPassword_absent:
  "readCandidate r = None \<Longrightarrow>
   getPassword env src d r w =
     (answer env (length (prompts w)), w\<lparr>prompts := prompts w @ [mk_prompt env src d]\<rparr>)"
  by (simp add: getPassword_def)

lemma readCandidate_None [simp]: "readCandidate None = None"
  by (simp add: readCandidate_def)

lemma recoveryKeyLoop_absent:
  "readCandidate r = None \<Longrightarrow>
   recoveryKeyLoop env vol src r tries reason opts lastErr w =
   recoveryKeyLoop env vol src None tries reason opts lastErr w"
  by (cases tries) (simp_all add: getPassword_absent)

lemma obtained_absent:
  "readCandidate r = None \<Longrightarrow>
   obtained env r w w' = map (answer env) [length (prompts w)..<length (prompts w')]"
  by (simp add: obtained_def)

section \<open>Properties\<close>

text \<open>
  C10: \<open>AddAuthorities\<close> adds no duplicate and is idempotent. A certificate whose raw
  subject, subject key id and public key algorithm equal those of a registered authority
  is skipped; the authorities appended by a call are pairwise different and different
  from the ones that were there; adding the same certificates a second time, in a second
  call or in the same call, changes nothing.
\<close>

theorem AddAuthorities_idempotent:
  assumes "AddAuthorities r certs = Inr r'"
  shows "AddAuthorities r' certs = Inr r' \<and>
         AddAuthorities r (certs @ certs) = Inr r' \<and>
         (\<exists>new. authorities r' = authorities r @ new \<and> distinct new \<and>
                set new \<inter> set (authorities r) = {}) \<and>
         (\<forall>a cert more. a \<in> set (authorities r) \<and> subject a = RawSubject cert \<and>
            subjectKeyId a = SubjectKeyId cert \<and>
            publicKeyAlgorithm a = PublicKeyAlgorithm cert \<longrightarrow>
            AddAuthorities r (Some cert # more) = AddAuthorities r more)"
proof -
  from AddAuthorities_grows [OF assms] have again: "AddAuthorities r' certs = Inr r'"
    by (intro AddAuthorities_known) auto
  with assms have twice: "AddAuthorities r (certs @ certs) = Inr r'"
    by (simp add: AddAuthorities_append)
  have skip: "AddAuthorities r (Some cert # more) = AddAuthorities r more"
    if "a \<in> set (authorities r)" "authority_matches a cert" for a cert more
    using that by (auto simp: authority_found_iff authority_matches_identity)
  from again twice AddAuthorities_new [OF assms] skip show ?thesis
    unfolding authority_matches_def by blast
qed

definition example_rules :: "unit secureBootNamespaceRules" where
  "example_rules =
     \<lparr>authorities = [\<lparr>subject = [1, 2], subjectKeyId = [3], publicKeyAlgorithm = 1\<rparr>],
      imageRules = ()\<rparr>"

definition example_certs :: "Certificate option list" where
  "example_certs =
     [Some \<lparr>RawSubject = [1, 2], SubjectKeyId = [3], PublicKeyAlgorithm = 1\<rparr>,
      Some \<lparr>RawSubject = [7], SubjectKeyId = [], PublicKeyAlgorithm = 3\<rparr>,
      Some \<lparr>RawSubject = [7], SubjectKeyId = [], PublicKeyAlgorithm = 3\<rparr>]"

definition example_rules_added :: "unit secureBootNamespaceRules" where
  "example_rules_added =
     \<lparr>authorities = [\<lparr>subject = [1, 2], subjectKeyId = [3], publicKeyAlgorithm = 1\<rparr>,
                     \<lparr>subject = [7], subjectKeyId = [], publicKeyAlgorithm = 3\<rparr>],
      imageRules = ()\<rparr>"

theorem AddAuthorities_idempotent_witness:
  "AddAuthorities example_rules example_certs = Inr example_rules_added \<and>
   AddAuthorities example_rules_added example_certs = Inr example_rules_added \<and>
   AddAuthorities example_rules (example_certs @ example_certs) = Inr example_rules_added \<and>
   AddAuthorities example_rules [Some \<lparr>RawSubject = [1, 2], SubjectKeyId = [3], PublicKeyAlgorithm = 1\<rparr>]
     = Inr example_rules"
proof -
  have run: "AddAuthorities example_rules example_certs = Inr example_rules_added"
    by (simp add: example_rules_def example_certs_def example_rules_added_def
        authority_matches_def identity_of_def)
  let ?a = "\<lparr>subject = [1, 2], subjectKeyId = [3], publicKeyAlgorithm = 1\<rparr>"
  let ?cert = "\<lparr>RawSubject = [1, 2], SubjectKeyId = [3], PublicKeyAlgorithm = 1\<rparr>"
  have known: "?a \<in> set (authorities example_rules) \<and> subject ?a = RawSubject ?cert \<and>
      subjectKeyId ?a = SubjectKeyId ?cert \<and> publicKeyAlgorithm ?a = PublicKeyAlgorithm ?cert"
    by (simp add: example_rules_def)
  from AddAuthorities_idempotent [OF run]
  have "AddAuthorities example_rules_added example_certs = Inr example_rules_added"
    and "AddAuthorities example_rules (example_certs @ example_certs) = Inr example_rules_added"
    and "\<forall>a cert more. a \<in> set (authorities example_rules) \<and> subject a = RawSubject cert \<and>
            subjectKeyId a = SubjectKeyId cert \<and>
            publicKeyAlgorithm a = PublicKeyAlgorithm cert \<longrightarrow>
            AddAuthorities example_rules (Some cert # more) = AddAuthorities example_rules more"
    by blast+
  moreover from this(3) known
  have "AddAuthorities example_rules (Some ?cert # []) = AddAuthorities example_rules []"
    by blast
  ultimately show ?thesis
    using run by simp
qed

text \<open>
  C8: for the empty list of PCR parameters the combination product is one row, the empty
  assignment of PCR values, and not zero rows.
\<close>

theorem MakeMockPolicyPCRValuesFull_empty:
  "MakeMockPolicyPCRValuesFull [] = Inr [Map.empty]"
  by (simp add: MakeMockPolicyPCRValuesFull_def)

end
